theory Spec2Isabelle
  imports Main
begin

section \<open>The continuous-integration workflows\<close>

text \<open>
  The file \<^verbatim>\<open>.github/workflows/pr.yml\<close> holds two workflow documents: \<^verbatim>\<open>PR\<close>, run on
  pull requests against \<^verbatim>\<open>master\<close>, and \<^verbatim>\<open>status\<close>, run on pushes. A workflow is data:
  its trigger, its jobs, and for each job the list of its steps. The documents are
  transcribed below field by field.
\<close>

subsection \<open>Workflow documents as data\<close>

text \<open>
  The status check of a step's \<^verbatim>\<open>if:\<close> key. The three functions the workflows use are
  \<^verbatim>\<open>success()\<close>, \<^verbatim>\<open>failure()\<close> and \<^verbatim>\<open>always()\<close>.
\<close>

datatype cond = Success | Failure | Always

text \<open>
  A step either runs a script (\<^verbatim>\<open>run:\<close>, one string per line of the script) or calls
  an action (\<^verbatim>\<open>uses:\<close>, with the entries of its \<^verbatim>\<open>with:\<close> key).
\<close>

datatype action = Run "string list" | Uses string "(string \<times> string) list"

record step =
  step_name :: "string option"
  step_if :: "cond option"
  step_env :: "(string \<times> string) list"
  step_action :: action

record job =
  job_id :: string
  runs_on :: string
  container_image :: "string option"
  job_matrix :: "(string \<times> string list) list"
  job_steps :: "step list"

text \<open>
  The \<^verbatim>\<open>on:\<close> key: \<^verbatim>\<open>pull_request\<close> with its \<^verbatim>\<open>branches\<close> filter, or \<^verbatim>\<open>push\<close> with its
  \<^verbatim>\<open>paths-ignore\<close> filter.
\<close>

datatype trigger = Pull_request "string list" | Push "string list"

record workflow =
  wf_name :: string
  wf_on :: trigger
  wf_jobs :: "job list"

definition plain_step :: "string option \<Rightarrow> action \<Rightarrow> step" where
  \<comment> \<open>a step with neither \<^verbatim>\<open>if:\<close> nor \<^verbatim>\<open>env:\<close>\<close>
  "plain_step n a = \<lparr>step_name = n, step_if = None, step_env = [], step_action = a\<rparr>"

subsubsection \<open>Workflow \<^verbatim>\<open>PR\<close>\<close>

definition pr_check :: job where
  \<open>pr_check =
    \<lparr>job_id = ''pr-check'',
     runs_on = ''ubuntu-latest'',
     container_image = Some ''analysiscenter1/ds-py3:cpu'',
     job_matrix = [],
     job_steps =
       [plain_step None (Uses ''actions/checkout@v1'' []),
        plain_step (Some ''Check if the branch is behind the master'')
          (Run [''git rev-list --count HEAD..origin/master | grep -w "0"'']),
        plain_step (Some ''Generate coverage report'')
          (Run [''pip3 install -U pytest-cov'',
                ''pytest -m "not slow" --cov=./ --cov-report=xml'']),
        plain_step (Some ''Upload coverage to Codecov'')
          (Run [''pip3 install -U codecov'',
                ''codecov -t ${{ secrets.CODECOV_TOKEN }}''])]\<rparr>\<close>

definition test_requirements :: job where
  \<open>test_requirements =
    \<lparr>job_id = ''test_requirements'',
     runs_on = ''${{ matrix.os }}'',
     container_image = None,
     job_matrix =
       [(''os'', [''ubuntu-latest'', ''macos-latest'', ''windows-latest'']),
        (''python-version'', [''3.6'', ''3.7''])],
     job_steps =
       [plain_step None (Uses ''actions/checkout@v1'' []),
        plain_step (Some ''Set up Python ${{ matrix.python-version }} on ${{ matrix.os }}'')
          (Uses ''actions/setup-python@v1''
             [(''python-version'', ''${{ matrix.python-version }}'')]),
        plain_step (Some ''Install batchflow requirements'')
          (Run [''pip install -r requirements.txt'', ''pip install pytest'']),
        plain_step (Some ''Run 'import batchflow' in installed environemnt'')
          (Run [''python -c 'import batchflow'' @ [CHR 0x27]]),
        plain_step (Some ''Run basic tests'')
          (Run [''cd batchflow/tests'',
                ''pytest --disable-pytest-warnings -v dataset_test.py filesindex_test.py datasetindex_test.py''])]\<rparr>\<close>

definition pr_workflow :: workflow where
  "pr_workflow =
    \<lparr>wf_name = ''PR'',
     wf_on = Pull_request [''master''],
     wf_jobs = [pr_check, test_requirements]\<rparr>"

subsubsection \<open>Workflow \<^verbatim>\<open>status\<close>\<close>

text \<open>
  The two Slack steps differ in their \<^verbatim>\<open>if:\<close> key and in the \<^verbatim>\<open>color\<close> of the attachment
  that their \<^verbatim>\<open>args\<close> payload posts to the channel \<^verbatim>\<open>#commits\<close>. The payload is kept by its
  channel and its colour; the attachment's text (links to the commit and to the
  workflow run, and the job status) is the same in both steps and is left out.
\<close>

definition slack_step :: "cond \<Rightarrow> string \<Rightarrow> step" where
  "slack_step c colour =
    \<lparr>step_name = Some ''Slack notification'',
     step_if = Some c,
     step_env = [(''SLACK_BOT_TOKEN'', ''${{ secrets.SLACK_BOT_TOKEN }}'')],
     step_action = Uses ''pullreminders/slack-action@master''
       [(''args.channel'', ''#commits''), (''args.attachments.color'', colour)]\<rparr>"

definition lint_test :: job where
  \<open>lint_test =
    \<lparr>job_id = ''lint-test'',
     runs_on = ''ubuntu-latest'',
     container_image = Some ''analysiscenter1/ds-py3:cpu'',
     job_matrix = [],
     job_steps =
       [plain_step None (Uses ''actions/checkout@v1'' [(''fetch-depth'', ''1'')]),
        plain_step (Some ''Update pylint'') (Run [''pip3 install -U pylint'']),
        plain_step (Some ''Check pylint'') (Run [''pylint -rn --rcfile pylintrc batchflow'']),
        \<lparr>step_name = Some ''Run tests'',
         step_if = Some Always,
         step_env = [],
         step_action = Run [''pytest -m "not slow" --disable-pytest-warnings -v'']\<rparr>,
        slack_step Success ''good'',
        slack_step Failure ''danger'']\<rparr>\<close>

definition status_workflow :: workflow where
  "status_workflow =
    \<lparr>wf_name = ''status'',
     wf_on = Push [''docs/**''],
     wf_jobs = [lint_test]\<rparr>"

definition workflows :: "workflow list" where
  "workflows = [pr_workflow, status_workflow]"

subsection \<open>Running the steps of a job\<close>

text \<open>
  A job runs its steps in order. The status of the job so far is \<open>Failed\<close> as soon as a
  step that ran has exited non-zero, and \<open>Succeeded\<close> until then. Before each step its
  status check is evaluated on that status: \<^verbatim>\<open>success()\<close> holds when no earlier step has
  failed, \<^verbatim>\<open>failure()\<close> when one has, \<^verbatim>\<open>always()\<close> in both cases; a step without \<^verbatim>\<open>if:\<close>
  has the check \<^verbatim>\<open>success()\<close>. A step whose check does not hold is skipped. No step of
  these workflows sets \<^verbatim>\<open>continue-on-error\<close>, so every failing step fails its job.
  Cancelling a run from outside is not part of the model.

  What a step does when it runs is not fixed by the workflow: the parameter \<open>ok\<close> gives,
  for the step at each position, whether it exits with status zero if it is run. The
  theorems hold for every such \<open>ok\<close>.
\<close>

datatype status = Succeeded | Failed

datatype outcome = Skipped | Passed | Errored

fun cond_holds :: "cond \<Rightarrow> status \<Rightarrow> bool" where
  "cond_holds Success st = (st = Succeeded)"
| "cond_holds Failure st = (st = Failed)"
| "cond_holds Always st = True"

definition step_cond :: "step \<Rightarrow> cond" where
  "step_cond s = (case step_if s of None \<Rightarrow> Success | Some c \<Rightarrow> c)"

fun step_outcome :: "cond \<Rightarrow> status \<Rightarrow> bool \<Rightarrow> outcome" where
  "step_outcome c st exits_zero =
    (if cond_holds c st then (if exits_zero then Passed else Errored) else Skipped)"

fun executed :: "outcome \<Rightarrow> bool" where
  "executed Skipped = False"
| "executed Passed = True"
| "executed Errored = True"

fun after :: "status \<Rightarrow> outcome \<Rightarrow> status" where
  "after st Errored = Failed"
| "after st Passed = st"
| "after st Skipped = st"

fun run_steps :: "(nat \<Rightarrow> bool) \<Rightarrow> nat \<Rightarrow> status \<Rightarrow> step list \<Rightarrow> outcome list \<times> status" where
  "run_steps ok i st [] = ([], st)"
| "run_steps ok i st (s # ss) =
    (let out = step_outcome (step_cond s) st (ok i);
         rest = run_steps ok (Suc i) (after st out) ss
     in (out # fst rest, snd rest))"

definition outcomes :: "(nat \<Rightarrow> bool) \<Rightarrow> job \<Rightarrow> outcome list" where
  "outcomes ok j = fst (run_steps ok 0 Succeeded (job_steps j))"

definition job_status :: "(nat \<Rightarrow> bool) \<Rightarrow> job \<Rightarrow> status" where
  "job_status ok j = snd (run_steps ok 0 Succeeded (job_steps j))"

text \<open>
  The tool a script line calls is its first word; a step invokes a tool when one line
  of its script calls it.
\<close>

definition first_word :: "string \<Rightarrow> string" where
  "first_word l = takeWhile (\<lambda>c. c \<noteq> CHR '' '') l"

fun invokes :: "string \<Rightarrow> step \<Rightarrow> bool" where
  "invokes tool s =
    (case step_action s of
       Run ls \<Rightarrow> list_ex (\<lambda>l. first_word l = tool) ls
     | Uses a w \<Rightarrow> False)"

subsection \<open>Matrix, triggers and path filters\<close>

text \<open>
  A job with a \<^verbatim>\<open>strategy.matrix\<close> runs once for every combination of the values of its
  keys; a job without one runs once, for the empty combination.
\<close>

fun matrix_cells :: "(string \<times> string list) list \<Rightarrow> (string \<times> string) list list" where
  "matrix_cells [] = [[]]"
| "matrix_cells ((k, vs) # m) = concat (map (\<lambda>v. map (\<lambda>c. (k, v) # c) (matrix_cells m)) vs)"

text \<open>
  Filter patterns. The patterns of these workflows are \<^verbatim>\<open>master\<close> and \<^verbatim>\<open>docs/**\<close>: a
  character stands for itself, \<^verbatim>\<open>*\<close> for any run of characters other than \<^verbatim>\<open>/\<close>, and
  \<^verbatim>\<open>**\<close> for any run of characters. The other metacharacters of the pattern language
  occur in neither workflow and are not modelled.
\<close>

function glob_match :: "string \<Rightarrow> string \<Rightarrow> bool" where
  "glob_match [] s = (s = [])"
| "glob_match (a # p) [] = (a = CHR ''*'' \<and> glob_match p [])"
| "glob_match (a # p) (c # cs) =
    (if a = CHR ''*'' then
       (if p \<noteq> [] \<and> hd p = CHR ''*''
        then glob_match (tl p) (c # cs) \<or> glob_match (a # p) cs
        else glob_match p (c # cs) \<or> (c \<noteq> CHR ''/'' \<and> glob_match (a # p) cs))
     else a = c \<and> glob_match p cs)"
  by pat_completeness auto
termination
  by (relation "measure (\<lambda>(p, s). length p + length s)") auto

text \<open>
  The events the two workflows listen to: a pull request, with the branch it targets,
  and a push of commits to a branch, with the paths the push changes.
\<close>

datatype event = Pull_request_event string | Push_event "string list"

text \<open>
  A \<^verbatim>\<open>pull_request\<close> workflow runs when the target branch matches one of its
  \<^verbatim>\<open>branches\<close>. A \<^verbatim>\<open>push\<close> workflow with \<^verbatim>\<open>paths-ignore\<close> runs when at least one changed
  path matches none of the ignored patterns.
\<close>

definition triggered :: "workflow \<Rightarrow> event \<Rightarrow> bool" where
  "triggered w ev =
    (case (wf_on w, ev) of
       (Pull_request branches, Pull_request_event base) \<Rightarrow>
         list_ex (\<lambda>pat. glob_match pat base) branches
     | (Push ignored, Push_event changed) \<Rightarrow>
         list_ex (\<lambda>path. \<not> list_ex (\<lambda>pat. glob_match pat path) ignored) changed
     | _ \<Rightarrow> False)"

definition jobs_run :: "workflow list \<Rightarrow> event \<Rightarrow> job list" where
  "jobs_run ws ev = concat (map wf_jobs (filter (\<lambda>w. triggered w ev) ws))"

definition wf_invokes :: "string \<Rightarrow> workflow \<Rightarrow> bool" where
  "wf_invokes tool w = list_ex (\<lambda>j. list_ex (invokes tool) (job_steps j)) (wf_jobs w)"

text \<open>Whether a word occurs anywhere in the text of a step: its name, script or action.\<close>

definition starts_with :: "string \<Rightarrow> string \<Rightarrow> bool" where
  "starts_with pat s = (take (length pat) s = pat)"

fun contains :: "string \<Rightarrow> string \<Rightarrow> bool" where
  "contains pat [] = (pat = [])"
| "contains pat (c # cs) = (starts_with pat (c # cs) \<or> contains pat cs)"

fun step_texts :: "step \<Rightarrow> string list" where
  "step_texts s =
    (case step_name s of None \<Rightarrow> [] | Some n \<Rightarrow> [n]) @
    (case step_action s of
       Run ls \<Rightarrow> ls
     | Uses a w \<Rightarrow> a # map fst w @ map snd w)"

definition wf_mentions :: "string \<Rightarrow> workflow \<Rightarrow> bool" where
  "wf_mentions word w =
    list_ex (\<lambda>j. list_ex (\<lambda>s. list_ex (contains word) (step_texts s)) (job_steps j)) (wf_jobs w)"

subsection \<open>The branch check of \<^verbatim>\<open>pr-check\<close>\<close>

text \<open>
  The script \<^verbatim>\<open>git rev-list --count HEAD..origin/master | grep -w "0"\<close> is a pipeline.
  Its first command prints, on one line and in decimal, the number of commits that are
  on \<^verbatim>\<open>origin/master\<close> and not on \<^verbatim>\<open>HEAD\<close>. Its second command selects the lines that hold
  the string \<^verbatim>\<open>0\<close> as a whole word (neither preceded nor followed by a letter, a digit
  or an underscore) and exits with status 0 when it selects a line, with status 1 when
  it selects none. The status of the pipeline, and so of the step, is that of its last
  command.
\<close>

definition digit_char :: "nat \<Rightarrow> char" where
  "digit_char d = ''0123456789'' ! d"

function decimal :: "nat \<Rightarrow> string" where
  "decimal n = (if n < 10 then [digit_char n] else decimal (n div 10) @ [digit_char (n mod 10)])"
  by pat_completeness auto
termination
  by (relation "measure id") auto

declare decimal.simps [simp del]

definition word_char :: "char \<Rightarrow> bool" where
  "word_char c =
    (let n = (of_char c :: nat)
     in (48 \<le> n \<and> n \<le> 57) \<or> (65 \<le> n \<and> n \<le> 90) \<or> (97 \<le> n \<and> n \<le> 122) \<or> n = 95)"

definition word_at :: "string \<Rightarrow> char option \<Rightarrow> string \<Rightarrow> bool" where
  "word_at pat before s =
    (starts_with pat s
     \<and> (case before of None \<Rightarrow> True | Some b \<Rightarrow> \<not> word_char b)
     \<and> (case drop (length pat) s of [] \<Rightarrow> True | d # rest \<Rightarrow> \<not> word_char d))"

fun line_has_word :: "string \<Rightarrow> char option \<Rightarrow> string \<Rightarrow> bool" where
  "line_has_word pat before [] = word_at pat before []"
| "line_has_word pat before (c # cs) =
    (word_at pat before (c # cs) \<or> line_has_word pat (Some c) cs)"

definition grep_w :: "string \<Rightarrow> string list \<Rightarrow> nat" where
  "grep_w pat lines = (if list_ex (line_has_word pat None) lines then 0 else 1)"

definition branch_behind_check :: "nat \<Rightarrow> nat" where
  "branch_behind_check behind = grep_w ''0'' [decimal behind]"

text \<open>
  Named runs of \<^verbatim>\<open>lint-test\<close>: in \<open>lint_fails\<close> every step exits with status zero but
  \<^verbatim>\<open>Check pylint\<close> (position 2); in \<open>slack_fails\<close> every step does but the first Slack
  notification (position 4).
\<close>

definition lint_fails :: "nat \<Rightarrow> bool" where
  "lint_fails i = (i \<noteq> 2)"

definition slack_fails :: "nat \<Rightarrow> bool" where
  "slack_fails i = (i \<noteq> 4)"

text \<open>
  Named runs of the other jobs: in \<open>behind_by n\<close> the branch check of \<^verbatim>\<open>pr-check\<close>
  (position 1) exits as the pipeline does on a branch that is \<open>n\<close> commits behind, and
  every other step exits with status zero; in \<open>import_fails_on_windows\<close> every step exits
  with status zero but the import of the package (position 3) on \<^verbatim>\<open>windows-latest\<close>.
\<close>

definition behind_by :: "nat \<Rightarrow> nat \<Rightarrow> bool" where
  "behind_by n i = (if i = 1 then branch_behind_check n = 0 else True)"

definition import_fails_on_windows :: "(string \<times> string) list \<Rightarrow> nat \<Rightarrow> bool" where
  "import_fails_on_windows cell i = (\<not> (map_of cell ''os'' = Some ''windows-latest'' \<and> i = 3))"

section \<open>The Research loop of the tutorial notebook\<close>

text \<open>
  The notebook \<^verbatim>\<open>05_update_domain_in_research.ipynb\<close> calls the classes \<^verbatim>\<open>Option\<close> and
  \<^verbatim>\<open>Research\<close> of \<^verbatim>\<open>batchflow.research\<close>; their code is not among the source files. They
  are modelled from what the notebook and the specification say about them.
\<close>

subsection \<open>Options and domains\<close>

type_synonym 'v config = "(string \<times> 'v) list"

text \<open>
  Modelled from the spec: the class \<^verbatim>\<open>Option\<close> is missing. An option pairs a name with a
  sequence of candidate values.
\<close>

datatype 'v option_param = Option (option_name: string) (option_values: "'v list")

text \<open>
  Modelled from the spec: the class \<^verbatim>\<open>Domain\<close> is missing. A domain is a cross-product of
  named options, kept as the list of its factors.
\<close>

datatype 'v domain = Domain (options: "'v option_param list")

definition as_domain :: "'v option_param \<Rightarrow> 'v domain" where
  \<comment> \<open>Modelled from the spec: an option alone is the domain with that one factor.\<close>
  "as_domain p = Domain [p]"

definition times_domain :: "'v domain \<Rightarrow> 'v domain \<Rightarrow> 'v domain" where
  \<comment> \<open>Modelled from the spec: the operator \<^verbatim>\<open>*\<close> of domains is missing; the product has
      the factors of both.\<close>
  "times_domain d e = Domain (options d @ options e)"

definition option_times :: "'v option_param \<Rightarrow> 'v option_param \<Rightarrow> 'v domain" where
  \<comment> \<open>Modelled from the spec: the operator \<^verbatim>\<open>*\<close> of options is missing, as in
      \<^verbatim>\<open>Option('model', [...]) * Option('n_epochs', [1])\<close>.\<close>
  "option_times p q = times_domain (as_domain p) (as_domain q)"

text \<open>
  Modelled from the spec: the enumeration of a domain is missing. A domain drives one
  configuration per pipeline run: every choice of one candidate value for each option,
  the first option varying slowest.
\<close>

fun product_configs :: "'v option_param list \<Rightarrow> 'v config list" where
  "product_configs [] = [[]]"
| "product_configs (p # ps) =
    concat (map (\<lambda>v. map (\<lambda>c. (option_name p, v) # c) (product_configs ps)) (option_values p))"

definition domain_configs :: "'v domain \<Rightarrow> 'v config list" where
  \<comment> \<open>Modelled from the spec: the configurations a domain enumerates, in order.\<close>
  "domain_configs d = product_configs (options d)"

subsection \<open>Results and the domain-update loop\<close>

text \<open>
  Modelled from the spec: the results table of \<^verbatim>\<open>Research\<close> is missing. A research result
  is a row-oriented table keyed by configuration identity plus an update counter; a row
  also holds what the pipeline run returned.
\<close>

record ('v, 'r) row =
  row_config :: "'v config"
  row_update :: nat
  row_value :: 'r

text \<open>
  The exceptions of the notebook's callback. A call of an update callback returns a
  replacement domain, returns \<^verbatim>\<open>None\<close>, or raises.
\<close>

datatype error = ValueError | AttributeError

type_synonym 'v returned = "error + 'v domain option"

fun returned_domain :: "'v returned \<Rightarrow> bool" where
  "returned_domain (Inr (Some d)) = True"
| "returned_domain (Inr None) = False"
| "returned_domain (Inl e) = False"

text \<open>
  Modelled from the spec: the state of a \<^verbatim>\<open>Research\<close> run is missing. It holds every
  domain that has been in force (the initial one first), the configurations of the
  current domain that have not run yet, the number of configurations run since the
  domain was last set, the number of domain updates applied, whether updates are still
  going on, the exception that ended the run if there is one, the results table, and a
  record of the calls of the update callback: for each call, in order, the number of
  rows of the table it was given and what it returned.
\<close>

record ('v, 'r) research =
  domains :: "'v domain list"
  pending :: "'v config list"
  since :: nat
  updates :: nat
  active :: bool
  raised :: "error option"
  log :: "(nat \<times> 'v returned) list"
  results :: "('v, 'r) row list"

definition init_domain :: "'v domain \<Rightarrow> ('v, 'r) research" where
  \<comment> \<open>Modelled from the spec: \<^verbatim>\<open>Research().init_domain(domain)\<close> is missing.\<close>
  "init_domain d =
    \<lparr>domains = [d], pending = domain_configs d, since = 0, updates = 0,
     active = True, raised = None, log = [], results = []\<rparr>"

text \<open>
  Modelled from the spec: the cadence \<^verbatim>\<open>each\<close> of \<^verbatim>\<open>Research.update_domain\<close> is missing. A
  cadence says, from the number of configurations run since the domain was set and the
  number still pending, whether the update callback is due. It defines how often the
  callback is applied: with \<^verbatim>\<open>each='last'\<close>, when the current domain is exhausted; with a
  number \<open>k\<close>, after every \<open>k\<close> configurations.
\<close>

definition each_last :: "nat \<Rightarrow> nat \<Rightarrow> bool" where
  "each_last n_ran n_left = (n_left = 0)"


definition execute :: "('v config \<Rightarrow> 'r) \<Rightarrow> nat \<Rightarrow> 'v config \<Rightarrow> ('v, 'r) row" where
  \<comment> \<open>Modelled from the spec: one pipeline run, for one configuration, adds one row; its
      \<^verbatim>\<open>update\<close> column is the number of updates before the configuration was got.\<close>
  "execute run u c = \<lparr>row_config = c, row_update = u, row_value = run c\<rparr>"

text \<open>
  Modelled from the spec: the loop of \<^verbatim>\<open>Research.run\<close> is missing. While updates go on,
  fewer than \<open>n_updates\<close> have been applied and the cadence says the callback is due, the
  callback is called on the results so far: a domain it returns replaces the current
  one and counts as one update; when it returns \<^verbatim>\<open>None\<close> the updates stop. Otherwise the
  next pending configuration runs, and the run ends when none is pending. The spec
  names no handler for a callback that raises: the exception ends the run where it is.
\<close>

function run_research ::
  "('v config \<Rightarrow> 'r) \<Rightarrow> (('v, 'r) row list \<Rightarrow> 'v returned) \<Rightarrow> (nat \<Rightarrow> nat \<Rightarrow> bool) \<Rightarrow> nat \<Rightarrow>
   ('v, 'r) research \<Rightarrow> ('v, 'r) research" where
  "run_research run update each n_updates s =
    (if active s \<and> updates s < n_updates \<and> each (since s) (length (pending s)) then
       (case update (results s) of
          Inl e \<Rightarrow>
            s\<lparr>active := False, raised := Some e,
              log := log s @ [(length (results s), Inl e)]\<rparr>
        | Inr None \<Rightarrow>
            run_research run update each n_updates
              (s\<lparr>active := False, log := log s @ [(length (results s), Inr None)]\<rparr>)
        | Inr (Some d) \<Rightarrow>
            run_research run update each n_updates
              (s\<lparr>domains := domains s @ [d], pending := domain_configs d, since := 0,
                 updates := Suc (updates s),
                 log := log s @ [(length (results s), Inr (Some d))]\<rparr>))
     else
       (case pending s of
          [] \<Rightarrow> s
        | c # cs \<Rightarrow>
            run_research run update each n_updates
              (s\<lparr>pending := cs, since := Suc (since s),
                 results := results s @ [execute run (updates s) c]\<rparr>)))"
  by pat_completeness auto
termination
  by (relation "measures
        [\<lambda>(run, update, each, n_updates, s). (if active s then Suc (n_updates - updates s) else 0),
         \<lambda>(run, update, each, n_updates, s). length (pending s)]") auto

declare run_research.simps [simp del]

text \<open>
  The domains that the calls of the callback returned, in order, and the number of
  them that were returned while the table had at most \<open>p\<close> rows, that is, before the row
  at position \<open>p\<close> was added.
\<close>

fun returned_domains :: "(nat \<times> 'v returned) list \<Rightarrow> 'v domain list" where
  "returned_domains [] = []"
| "returned_domains ((m, Inr (Some d)) # l) = d # returned_domains l"
| "returned_domains ((m, Inr None) # l) = returned_domains l"
| "returned_domains ((m, Inl e) # l) = returned_domains l"

definition updates_before :: "(nat \<times> 'v returned) list \<Rightarrow> nat \<Rightarrow> nat" where
  "updates_before l p = length (returned_domains (filter (\<lambda>(m, x). m \<le> p) l))"

definition load_results :: "('v, 'r) row list \<Rightarrow> nat option \<Rightarrow> ('v, 'r) row list" where
  \<comment> \<open>Modelled from the spec: \<^verbatim>\<open>Research.load_results\<close> is missing; \<^verbatim>\<open>update=u\<close> selects
      the rows whose \<^verbatim>\<open>update\<close> column is \<open>u\<close>.\<close>
  "load_results rows update =
    (case update of None \<Rightarrow> rows | Some u \<Rightarrow> filter (\<lambda>r. row_update r = u) rows)"

subsection \<open>Invariants of the loop\<close>

text \<open>
  Three properties that every state of a run has. The first is about the calls of the
  callback: every call returned a domain while the updates go on, and when they have
  stopped, every call but the last did; the domains in force are the initial one and
  the returned ones; each recorded call is the callback's value on the table as it
  was.
\<close>

definition calls_inv ::
  "(('v, 'r) row list \<Rightarrow> 'v returned) \<Rightarrow> nat \<Rightarrow> 'v domain \<Rightarrow> ('v, 'r) research \<Rightarrow> bool" where
  "calls_inv update n d s \<longleftrightarrow>
     updates s \<le> n
   \<and> updates s = length (returned_domains (log s))
   \<and> domains s = d # returned_domains (log s)
   \<and> length (log s) = updates s + (if active s then 0 else 1)
   \<and> (active s \<longrightarrow> list_all returned_domain (map snd (log s)) \<and> raised s = None)
   \<and> (\<not> active s \<longrightarrow> log s \<noteq> []
        \<and> list_all returned_domain (butlast (map snd (log s)))
        \<and> \<not> returned_domain (snd (last (log s)))
        \<and> updates s < n
        \<and> raised s = (case snd (last (log s)) of Inl e \<Rightarrow> Some e | Inr x \<Rightarrow> None))
   \<and> list_all (\<lambda>(m, x). m \<le> length (results s) \<and> x = update (take m (results s))) (log s)"

text \<open>
  The second is about the rows: the counter of the row at position \<open>p\<close> is the number of
  domains returned before the row was added, and its configuration is one of the
  domain in force after that many updates.
\<close>

definition rows_inv ::
  "('v config \<Rightarrow> 'r) \<Rightarrow> ('v, 'r) research \<Rightarrow> bool" where
  "rows_inv run s \<longleftrightarrow>
     length (returned_domains (log s)) = updates s
   \<and> length (domains s) = Suc (updates s)
   \<and> list_all (\<lambda>(m, x). m \<le> length (results s)) (log s)
   \<and> set (pending s) \<subseteq> set (domain_configs (domains s ! updates s))
   \<and> (\<forall>p < length (results s).
         updates_before (log s) p = row_update (results s ! p)
       \<and> row_update (results s ! p) \<le> updates s
       \<and> row_config (results s ! p)
           \<in> set (domain_configs (domains s ! row_update (results s ! p)))
       \<and> row_value (results s ! p) = run (row_config (results s ! p)))"


subsection \<open>The notebook's domain and callback\<close>

text \<open>
  The values of the notebook's options are model classes and numbers of epochs; \<open>NaN\<close>
  is what a table holds in a column for a row whose configuration has no such option.
  The value a run returns is its test accuracy, here as a count of correct predictions.
\<close>

datatype val = Model string | Num int | NaN

definition notebook_domain :: "val domain" where
  "notebook_domain =
    option_times (Option ''model'' [Model ''VGG7'', Model ''VGG16'', Model ''ResNet18''])
      (Option ''n_epochs'' [Num 1])"

text \<open>The position of the first greatest value of a column; none in an empty column.\<close>

fun idxmax :: "('a::linorder) list \<Rightarrow> nat option" where
  "idxmax [] = None"
| "idxmax (x # xs) =
    (case idxmax xs of
       None \<Rightarrow> Some 0
     | Some j \<Rightarrow> if x < xs ! j then Some (Suc j) else Some 0)"

text \<open>
  The notebook's callback:
  \<^verbatim>\<open>
  def update_domain(results):
      best_model = results.iloc[results['accuracy'].idxmax()].model
      domain = Option('model', [best_model]) * Option('n_epochs', [2])
      return domain
  \<close>
  On a table with no row \<^verbatim>\<open>idxmax\<close> raises \<^verbatim>\<open>ValueError\<close>. The attribute \<^verbatim>\<open>model\<close> of a row is
  its value in the column \<^verbatim>\<open>model\<close>: reading it raises \<^verbatim>\<open>AttributeError\<close> when the table
  has no such column, that is, when no row's configuration has the option. The
  callback never returns \<^verbatim>\<open>None\<close>.
\<close>

definition update_domain :: "(val, nat) row list \<Rightarrow> val returned" where
  "update_domain rs =
    (case idxmax (map row_value rs) of
       None \<Rightarrow> Inl ValueError
     | Some i \<Rightarrow>
        if list_ex (\<lambda>r. map_of (row_config r) ''model'' \<noteq> None) rs then
          (let best_model =
             (case map_of (row_config (rs ! i)) ''model'' of None \<Rightarrow> NaN | Some v \<Rightarrow> v)
           in Inr (Some (option_times (Option ''model'' [best_model])
                                      (Option ''n_epochs'' [Num 2]))))
        else Inl AttributeError)"


text \<open>A table of accuracies for the runs of the notebook, in correct predictions of 10000.\<close>

definition accuracy :: "val config \<Rightarrow> nat" where
  "accuracy c =
    (if c = [(''model'', Model ''VGG7''), (''n_epochs'', Num 1)] then 5000
     else if c = [(''model'', Model ''VGG7''), (''n_epochs'', Num 2)] then 5625
     else 4000)"

text \<open>The row of the notebook's second domain: the best model, trained for two epochs.\<close>

definition best_row :: "(val, nat) row" where
  "best_row = \<lparr>row_config = [(''model'', Model ''VGG7''), (''n_epochs'', Num 2)],
          row_update = 1, row_value = 5625\<rparr>"

text \<open>
  Three runs on the notebook's domain and table of accuracies: the notebook's own
  (\<^verbatim>\<open>each='last'\<close>, \<^verbatim>\<open>n_updates=1\<close>); one with three updates allowed and the callback that
  stops them; one with the notebook's callback applied after every configuration.
\<close>

definition notebook_research :: "(val, nat) research" where
  "notebook_research = run_research accuracy update_domain each_last 1 (init_domain notebook_domain)"



section \<open>Properties of the job runs\<close>

lemma run_steps_length: "length (fst (run_steps ok i st ss)) = length ss"
  by (induction ss arbitrary: i st) (simp_all add: Let_def)

lemma run_steps_failed_sticky: "snd (run_steps ok i Failed ss) = Failed"
proof (induction ss arbitrary: i)
  case Nil
  show ?case by simp
next
  case (Cons s ss)
  have "after Failed (step_outcome (step_cond s) Failed (ok i)) = Failed"
    by (cases "step_outcome (step_cond s) Failed (ok i)") simp_all
  with Cons show ?case by (simp add: Let_def)
qed

lemma run_steps_errored_fails:
  "k < length ss \<Longrightarrow> fst (run_steps ok i st ss) ! k = Errored \<Longrightarrow>
   snd (run_steps ok i st ss) = Failed"
proof (induction ss arbitrary: i st k)
  case Nil
  then show ?case by simp
next
  case (Cons s ss)
  show ?case
  proof (cases k)
    case 0
    with Cons.prems have "step_outcome (step_cond s) st (ok i) = Errored"
      by (simp add: Let_def)
    then show ?thesis
      by (simp add: Let_def run_steps_failed_sticky)
  next
    case (Suc k')
    with Cons.prems show ?thesis
      by (simp add: Let_def Cons.IH)
  qed
qed

lemmas lint_test_unfold =
  outcomes_def job_status_def lint_test_def plain_step_def slack_step_def step_cond_def Let_def

subsection \<open>Failing steps fail their job\<close>

text \<open>
  Claim C8. A non-zero exit from a lint, test or import step fails the job: in every run
  of \<^verbatim>\<open>lint-test\<close> and in every run of \<^verbatim>\<open>test_requirements\<close> (one for each cell of its
  matrix), when a step that invokes \<^verbatim>\<open>pylint\<close>, \<^verbatim>\<open>pytest\<close> or \<^verbatim>\<open>python\<close> exits non-zero, the
  final status of the job is failure.
\<close>

theorem failing_step_fails_job:
  assumes "j = lint_test \<or> j = test_requirements"
    and "cell \<in> set (matrix_cells (job_matrix j))"
    and "i < length (job_steps j)"
    and "invokes ''pylint'' (job_steps j ! i) \<or> invokes ''pytest'' (job_steps j ! i)
         \<or> invokes ''python'' (job_steps j ! i)"
    and "outcomes (ok cell) j ! i = Errored"
  shows "job_status (ok cell) j = Failed"
  using assms(3,5) unfolding outcomes_def job_status_def
  by (rule run_steps_errored_fails)

theorem failing_step_fails_job_witness:
  "(lint_test = lint_test \<or> lint_test = test_requirements)
   \<and> [] \<in> set (matrix_cells (job_matrix lint_test))
   \<and> 2 < length (job_steps lint_test)
   \<and> invokes ''pylint'' (job_steps lint_test ! 2)
   \<and> outcomes lint_fails lint_test ! 2 = Errored
   \<and> job_status lint_fails lint_test = Failed"
proof -
  have a: "[] \<in> set (matrix_cells (job_matrix lint_test))"
    by (simp add: lint_test_def)
  have b: "2 < length (job_steps lint_test)"
    by (simp add: lint_test_def)
  have c: "invokes ''pylint'' (job_steps lint_test ! 2)"
    by (simp add: lint_test_def plain_step_def first_word_def)
  have d: "outcomes lint_fails lint_test ! 2 = Errored"
    by (simp add: lint_test_unfold lint_fails_def)
  from failing_step_fails_job [of lint_test "[]" 2 "\<lambda>c. lint_fails", OF _ a b _ d] c
  have "job_status lint_fails lint_test = Failed" by simp
  with a b c d show ?thesis by simp
qed

subsection \<open>The tests of \<^verbatim>\<open>lint-test\<close> run whatever the linter says\<close>

text \<open>
  Claim C9. In the job \<^verbatim>\<open>lint-test\<close> the step \<^verbatim>\<open>Run tests\<close> is guarded by \<^verbatim>\<open>if: always()\<close>:
  in every run of the job the test suite is executed, also when the \<^verbatim>\<open>pylint\<close> step
  before it exits non-zero; a lint failure fails the job and never skips the tests.
\<close>

theorem run_tests_always_executes:
  "step_name (job_steps lint_test ! 3) = Some ''Run tests''
   \<and> step_if (job_steps lint_test ! 3) = Some Always
   \<and> invokes ''pytest'' (job_steps lint_test ! 3)
   \<and> invokes ''pylint'' (job_steps lint_test ! 2)
   \<and> executed (outcomes ok lint_test ! 3)
   \<and> (outcomes ok lint_test ! 2 = Errored \<longrightarrow>
        job_status ok lint_test = Failed \<and> executed (outcomes ok lint_test ! 3))"
  by (simp add: lint_test_unfold first_word_def)

theorem run_tests_always_executes_witness:
  "outcomes lint_fails lint_test ! 2 = Errored
   \<and> job_status lint_fails lint_test = Failed
   \<and> outcomes lint_fails lint_test ! 3 = Passed"
proof -
  have a: "outcomes lint_fails lint_test ! 2 = Errored"
    by (simp add: lint_test_unfold lint_fails_def)
  have b: "outcomes lint_fails lint_test ! 3 = Passed"
    by (simp add: lint_test_unfold lint_fails_def)
  from a run_tests_always_executes [of lint_fails]
  have "job_status lint_fails lint_test = Failed" by blast
  with a b show ?thesis by simp
qed

subsection \<open>The Slack notifications of \<^verbatim>\<open>lint-test\<close>\<close>

text \<open>
  Claim C6 says that in every completed run of \<^verbatim>\<open>lint-test\<close> exactly one of the two
  Slack steps executes. It fails in the run where the four steps before them pass and
  the first Slack step itself exits non-zero: that step was executed, the job has
  failed by then, and the step guarded by \<^verbatim>\<open>failure()\<close> is executed too.
\<close>

theorem both_slack_steps_counterexample:
  "job_status slack_fails lint_test = Failed
   \<and> outcomes slack_fails lint_test = [Passed, Passed, Passed, Passed, Errored, Passed]
   \<and> job_steps lint_test ! 4 = slack_step Success ''good''
   \<and> job_steps lint_test ! 5 = slack_step Failure ''danger''"
  by (simp add: lint_test_unfold slack_fails_def)

text \<open>
  Claim C6, amended. In every run of \<^verbatim>\<open>lint-test\<close> the test suite is executed and at
  least one of the two Slack steps is: the \<^verbatim>\<open>good\<close> one, guarded by \<^verbatim>\<open>success()\<close>, exactly
  when none of the four steps before it has failed, and the \<^verbatim>\<open>danger\<close> one, guarded by
  \<^verbatim>\<open>failure()\<close>, exactly when one of the five steps before it has failed. Exactly one of
  the two is executed in every run in which the \<^verbatim>\<open>good\<close> step does not itself fail.
\<close>

theorem slack_notification_by_status:
  "job_steps lint_test ! 4 = slack_step Success ''good''
   \<and> job_steps lint_test ! 5 = slack_step Failure ''danger''
   \<and> invokes ''pytest'' (job_steps lint_test ! 3)
   \<and> executed (outcomes ok lint_test ! 3)
   \<and> (executed (outcomes ok lint_test ! 4) \<longleftrightarrow> Errored \<notin> set (take 4 (outcomes ok lint_test)))
   \<and> (executed (outcomes ok lint_test ! 5) \<longleftrightarrow> Errored \<in> set (take 5 (outcomes ok lint_test)))
   \<and> (executed (outcomes ok lint_test ! 4) \<or> executed (outcomes ok lint_test ! 5))
   \<and> (outcomes ok lint_test ! 4 \<noteq> Errored \<longrightarrow>
        executed (outcomes ok lint_test ! 4) \<noteq> executed (outcomes ok lint_test ! 5))"
  by (simp add: lint_test_unfold first_word_def)

theorem slack_notification_by_status_witness:
  "outcomes lint_fails lint_test ! 4 \<noteq> Errored
   \<and> \<not> executed (outcomes lint_fails lint_test ! 4)
   \<and> executed (outcomes lint_fails lint_test ! 5)"
proof -
  have a: "outcomes lint_fails lint_test ! 4 \<noteq> Errored"
    by (simp add: lint_test_unfold lint_fails_def)
  have b: "\<not> executed (outcomes lint_fails lint_test ! 4)"
    by (simp add: lint_test_unfold lint_fails_def)
  from a b slack_notification_by_status [of lint_fails]
  have "executed (outcomes lint_fails lint_test ! 5)" by blast
  with a b show ?thesis by simp
qed

subsection \<open>The smoke tests of \<^verbatim>\<open>test_requirements\<close>\<close>

lemmas test_requirements_unfold =
  outcomes_def job_status_def test_requirements_def plain_step_def step_cond_def Let_def

text \<open>
  Claim C7. The job \<^verbatim>\<open>test_requirements\<close> runs on a matrix of three operating systems and
  two Python versions, six cells in all. In every cell, a failure of
  \<^verbatim>\<open>python -c 'import batchflow'\<close> or of \<^verbatim>\<open>pytest\<close> on the three named test files fails the
  job: the job succeeds only if both steps were executed and passed.
\<close>

theorem smoke_test_matrix_gate:
  "matrix_cells (job_matrix test_requirements) =
     [[(''os'', os), (''python-version'', py)].
        os \<leftarrow> [''ubuntu-latest'', ''macos-latest'', ''windows-latest''], py \<leftarrow> [''3.6'', ''3.7'']]
   \<and> length (matrix_cells (job_matrix test_requirements)) = 3 * 2
   \<and> step_action (job_steps test_requirements ! 3) = Run [''python -c 'import batchflow'' @ [CHR 0x27]]
   \<and> step_action (job_steps test_requirements ! 4) =
        Run [''cd batchflow/tests'',
             ''pytest --disable-pytest-warnings -v dataset_test.py filesindex_test.py datasetindex_test.py'']
   \<and> (\<forall>cell \<in> set (matrix_cells (job_matrix test_requirements)).
        (outcomes (ok cell) test_requirements ! 3 = Errored
           \<or> outcomes (ok cell) test_requirements ! 4 = Errored
         \<longrightarrow> job_status (ok cell) test_requirements = Failed)
        \<and> (job_status (ok cell) test_requirements = Succeeded
         \<longrightarrow> outcomes (ok cell) test_requirements ! 3 = Passed
           \<and> outcomes (ok cell) test_requirements ! 4 = Passed))"
proof -
  have run: "(outcomes f test_requirements ! 3 = Errored
           \<or> outcomes f test_requirements ! 4 = Errored
         \<longrightarrow> job_status f test_requirements = Failed)
        \<and> (job_status f test_requirements = Succeeded
         \<longrightarrow> outcomes f test_requirements ! 3 = Passed
           \<and> outcomes f test_requirements ! 4 = Passed)" for f
    by (simp add: test_requirements_unfold)
  have cells: "matrix_cells (job_matrix test_requirements) =
     [[(''os'', os), (''python-version'', py)].
        os \<leftarrow> [''ubuntu-latest'', ''macos-latest'', ''windows-latest''], py \<leftarrow> [''3.6'', ''3.7'']]"
    by (simp add: test_requirements_def)
  have len: "length (matrix_cells (job_matrix test_requirements)) = 3 * 2"
    by (simp add: test_requirements_def)
  have acts: "step_action (job_steps test_requirements ! 3) = Run [''python -c 'import batchflow'' @ [CHR 0x27]]
   \<and> step_action (job_steps test_requirements ! 4) =
        Run [''cd batchflow/tests'',
             ''pytest --disable-pytest-warnings -v dataset_test.py filesindex_test.py datasetindex_test.py'']"
    by (simp add: test_requirements_def plain_step_def)
  from run cells len acts show ?thesis by blast
qed

theorem smoke_test_matrix_gate_witness:
  "[(''os'', ''windows-latest''), (''python-version'', ''3.7'')]
      \<in> set (matrix_cells (job_matrix test_requirements))
   \<and> outcomes (import_fails_on_windows [(''os'', ''windows-latest''), (''python-version'', ''3.7'')])
        test_requirements ! 3 = Errored
   \<and> job_status (import_fails_on_windows [(''os'', ''windows-latest''), (''python-version'', ''3.7'')])
        test_requirements = Failed"
proof -
  let ?c = "[(''os'', ''windows-latest''), (''python-version'', ''3.7'')]"
  have a: "?c \<in> set (matrix_cells (job_matrix test_requirements))"
    by (simp add: test_requirements_def)
  have b: "outcomes (import_fails_on_windows ?c) test_requirements ! 3 = Errored"
    by (simp add: test_requirements_unfold import_fails_on_windows_def)
  from a b smoke_test_matrix_gate [of import_fails_on_windows]
  have "job_status (import_fails_on_windows ?c) test_requirements = Failed" by blast
  with a b show ?thesis by simp
qed

subsection \<open>The branch check of \<^verbatim>\<open>pr-check\<close>\<close>

lemma below_ten:
  "d < 10 \<Longrightarrow> d = 0 \<or> d = 1 \<or> d = 2 \<or> d = 3 \<or> d = 4 \<or> d = 5 \<or> d = 6 \<or> d = 7 \<or> d = 8 \<or> d = (9::nat)"
  by arith

lemma word_char_digit: "d < 10 \<Longrightarrow> word_char (digit_char d)"
  using below_ten [of d] by (auto simp: word_char_def digit_char_def)

lemma digit_char_zero: "d < 10 \<Longrightarrow> digit_char d = CHR ''0'' \<longleftrightarrow> d = 0"
  using below_ten [of d] by (auto simp: digit_char_def)

lemma decimal_word_chars: "\<forall>c \<in> set (decimal n). word_char c"
proof (induction n rule: decimal.induct)
  case (1 n)
  show ?case
  proof (cases "n < 10")
    case True
    then show ?thesis by (subst decimal.simps) (simp add: word_char_digit)
  next
    case False
    have "decimal n = decimal (n div 10) @ [digit_char (n mod 10)]"
      using False by (subst decimal.simps) simp
    with False "1.IH" show ?thesis by (simp add: word_char_digit)
  qed
qed

lemma decimal_not_Nil: "decimal n \<noteq> []"
  by (subst decimal.simps) simp

lemma decimal_is_zero: "decimal n = ''0'' \<longleftrightarrow> n = 0"
proof (cases "n < 10")
  case True
  have "digit_char n = CHR ''0'' \<longleftrightarrow> n = 0"
    using True by (rule digit_char_zero)
  with True show ?thesis by (subst decimal.simps) simp
next
  case False
  have "decimal n = decimal (n div 10) @ [digit_char (n mod 10)]"
    using False by (subst decimal.simps) simp
  then have "length (decimal n) \<ge> 2"
    using decimal_not_Nil [of "n div 10"] by (cases "decimal (n div 10)") simp_all
  with False show ?thesis by auto
qed

lemma no_word_after_word_char:
  "word_char b \<Longrightarrow> \<forall>c \<in> set s. word_char c \<Longrightarrow> \<not> line_has_word pat (Some b) s"
  by (induction s arbitrary: b) (simp_all add: word_at_def)

lemma word_line_has_word:
  assumes "\<forall>c \<in> set s. word_char c"
  shows "line_has_word pat None s \<longleftrightarrow> s = pat"
proof (cases s)
  case Nil
  then show ?thesis by (auto simp: word_at_def starts_with_def)
next
  case (Cons c cs)
  with assms have rest: "\<not> line_has_word pat (Some c) cs"
    by (simp add: no_word_after_word_char)
  have "word_at pat None s \<longleftrightarrow> s = pat"
  proof
    assume w: "word_at pat None s"
    then have t: "take (length pat) s = pat" by (simp add: word_at_def starts_with_def)
    have "drop (length pat) s = []"
    proof (cases "drop (length pat) s")
      case Nil
      then show ?thesis .
    next
      case (Cons d ds)
      then have "d \<in> set s" by (metis in_set_dropD list.set_intros(1))
      with assms have "word_char d" by simp
      with w Cons show ?thesis by (simp add: word_at_def)
    qed
    with t show "s = pat" by (metis append_take_drop_id append_Nil2)
  next
    assume "s = pat"
    then show "word_at pat None s" by (simp add: word_at_def starts_with_def)
  qed
  with rest Cons show ?thesis by simp
qed

lemma branch_behind_check_zero: "branch_behind_check behind = 0 \<longleftrightarrow> behind = 0"
  by (simp add: branch_behind_check_def grep_w_def word_line_has_word decimal_word_chars
      decimal_is_zero)

lemmas pr_check_unfold =
  outcomes_def job_status_def pr_check_def plain_step_def step_cond_def Let_def

text \<open>
  Claim C3. The branch check \<^verbatim>\<open>git rev-list --count HEAD..origin/master | grep -w "0"\<close>
  exits non-zero exactly when the number of commits on \<^verbatim>\<open>origin/master\<close> that are not on
  \<^verbatim>\<open>HEAD\<close> is greater than zero, and with status zero when that number is zero. A run
  of \<^verbatim>\<open>pr-check\<close> on a branch that is behind fails, and the steps after the check are
  skipped.
\<close>

theorem behind_branch_fails_pr_check:
  "step_action (job_steps pr_check ! 1) =
      Run [''git rev-list --count HEAD..origin/master | grep -w '' @ [CHR 0x22] @ ''0'' @ [CHR 0x22]]
   \<and> (branch_behind_check behind \<noteq> 0 \<longleftrightarrow> 0 < behind)
   \<and> (ok 1 = (branch_behind_check behind = 0) \<longrightarrow>
        (0 < behind \<longrightarrow> \<not> executed (outcomes ok pr_check ! 2) \<and> job_status ok pr_check = Failed)
        \<and> (0 < behind \<and> ok 0 \<longrightarrow> outcomes ok pr_check ! 1 = Errored)
        \<and> (behind = 0 \<and> ok 0 \<longrightarrow> outcomes ok pr_check ! 1 = Passed))"
  by (simp add: branch_behind_check_zero pr_check_unfold)

theorem behind_branch_fails_pr_check_witness:
  "behind_by 10 1 = (branch_behind_check 10 = 0) \<and> (0::nat) < 10 \<and> behind_by 10 0
   \<and> branch_behind_check 10 \<noteq> 0
   \<and> outcomes (behind_by 10) pr_check ! 1 = Errored
   \<and> job_status (behind_by 10) pr_check = Failed"
  using behind_branch_fails_pr_check [of 10 "behind_by 10"]
  by (simp add: behind_by_def)

subsection \<open>What a pull request runs\<close>

lemma pr_triggered: "triggered pr_workflow (Pull_request_event ''master'')"
  by (simp add: triggered_def pr_workflow_def)

lemma status_not_on_pull_request: "\<not> triggered status_workflow (Pull_request_event b)"
  by (simp add: triggered_def status_workflow_def)

lemma pr_invokes_pytest: "wf_invokes ''pytest'' pr_workflow"
  by (simp add: wf_invokes_def pr_workflow_def pr_check_def test_requirements_def
      plain_step_def first_word_def)

lemma pr_no_pylint: "\<not> wf_mentions ''pylint'' pr_workflow"
  by (simp add: wf_mentions_def pr_workflow_def pr_check_def test_requirements_def
      plain_step_def starts_with_def)

lemma pr_not_invokes_pylint: "\<not> wf_invokes ''pylint'' pr_workflow"
  by (simp add: wf_invokes_def pr_workflow_def pr_check_def test_requirements_def
      plain_step_def first_word_def)

lemma status_invokes_pylint: "wf_invokes ''pylint'' status_workflow"
  by (simp add: wf_invokes_def status_workflow_def lint_test_def
      plain_step_def first_word_def)

text \<open>
  Claim C2 says that the workflow triggered by a pull request against \<^verbatim>\<open>master\<close> has both
  a \<^verbatim>\<open>pylint\<close> step and a test-runner step. The workflow \<^verbatim>\<open>PR\<close> is triggered and none of
  its steps invokes \<^verbatim>\<open>pylint\<close>; the word does not even occur in it.
\<close>

theorem pull_request_no_pylint_counterexample:
  "pr_workflow \<in> set workflows
   \<and> triggered pr_workflow (Pull_request_event ''master'')
   \<and> \<not> wf_invokes ''pylint'' pr_workflow
   \<and> \<not> wf_mentions ''pylint'' pr_workflow"
  by (simp add: pr_triggered pr_no_pylint pr_not_invokes_pylint workflows_def)

text \<open>
  Claim C2, amended. The one workflow triggered by a pull request against \<^verbatim>\<open>master\<close> is
  \<^verbatim>\<open>PR\<close>; it has steps that invoke the test runner \<^verbatim>\<open>pytest\<close> and no step that invokes
  \<^verbatim>\<open>pylint\<close>. The \<^verbatim>\<open>pylint\<close> step is in the workflow \<^verbatim>\<open>status\<close>, which a pull request does
  not trigger.
\<close>

theorem pull_request_runs_tests_only:
  assumes "w \<in> set workflows" and "triggered w (Pull_request_event ''master'')"
  shows "w = pr_workflow \<and> wf_invokes ''pytest'' w \<and> \<not> wf_invokes ''pylint'' w
    \<and> wf_invokes ''pylint'' status_workflow
    \<and> \<not> triggered status_workflow (Pull_request_event ''master'')"
proof -
  from assms have "w = pr_workflow"
    using status_not_on_pull_request by (auto simp: workflows_def)
  then show ?thesis
    by (simp add: pr_invokes_pytest pr_not_invokes_pylint status_invokes_pylint
        status_not_on_pull_request)
qed

theorem pull_request_runs_tests_only_witness:
  "pr_workflow \<in> set workflows \<and> triggered pr_workflow (Pull_request_event ''master'')
   \<and> wf_invokes ''pytest'' pr_workflow \<and> \<not> wf_invokes ''pylint'' pr_workflow"
proof -
  have a: "pr_workflow \<in> set workflows" by (simp add: workflows_def)
  from pull_request_runs_tests_only [OF a pr_triggered] a pr_triggered
  show ?thesis by simp
qed

subsection \<open>Pushes that change documentation only\<close>

lemma glob_any: "glob_match ''**'' s"
  by (induction s) simp_all

lemma glob_docs: "glob_match ''docs/**'' p \<longleftrightarrow> (\<exists>rest. p = ''docs/'' @ rest)"
proof
  assume "glob_match ''docs/**'' p"
  then show "\<exists>rest. p = ''docs/'' @ rest"
    by (cases p; cases "tl p"; cases "tl (tl p)"; cases "tl (tl (tl p))";
        cases "tl (tl (tl (tl p)))") (auto split: if_splits)
next
  assume "\<exists>rest. p = ''docs/'' @ rest"
  then show "glob_match ''docs/**'' p"
    using glob_any by auto
qed

text \<open>
  Claim C10. The workflow \<^verbatim>\<open>status\<close> does not run for a push whose changed paths all lie
  under \<^verbatim>\<open>docs/\<close>: the filter \<^verbatim>\<open>paths-ignore\<close> keeps the job \<^verbatim>\<open>lint-test\<close>, and with it every
  lint, test and Slack step, from running.
\<close>

theorem docs_only_push_skips_status:
  assumes "\<forall>p \<in> set changed. \<exists>rest. p = ''docs/'' @ rest"
  shows "\<not> triggered status_workflow (Push_event changed)
    \<and> jobs_run workflows (Push_event changed) = []
    \<and> lint_test \<notin> set (jobs_run workflows (Push_event changed))"
proof -
  have "\<not> triggered status_workflow (Push_event changed)"
    using assms by (simp add: triggered_def status_workflow_def glob_docs list_ex_iff)
  moreover have "\<not> triggered pr_workflow (Push_event changed)"
    by (simp add: triggered_def pr_workflow_def)
  ultimately show ?thesis by (simp add: jobs_run_def workflows_def)
qed

theorem docs_only_push_skips_status_witness:
  "(\<exists>rest. ''docs/index.rst'' = ''docs/'' @ rest) \<and> (\<exists>rest. ''docs/api/batch.rst'' = ''docs/'' @ rest)
   \<and> \<not> triggered status_workflow (Push_event [''docs/index.rst'', ''docs/api/batch.rst''])
   \<and> jobs_run workflows (Push_event [''docs/index.rst'', ''docs/api/batch.rst'']) = []"
  using docs_only_push_skips_status [of "[''docs/index.rst'', ''docs/api/batch.rst'']"]
  by simp

section \<open>Properties of the Research loop\<close>

subsection \<open>Induction on the loop\<close>

text \<open>
  A property that holds of the starting state and is kept by each move of the loop (the
  callback raises, returns \<^verbatim>\<open>None\<close>, returns a domain; a configuration runs) holds of the
  state the loop ends in.
\<close>

lemma run_research_invariant:
  assumes init: "I s"
    and raise: "\<And>s e. I s \<Longrightarrow> active s \<Longrightarrow> updates s < n \<Longrightarrow> each (since s) (length (pending s)) \<Longrightarrow>
        update (results s) = Inl e \<Longrightarrow>
        I (s\<lparr>active := False, raised := Some e,
              log := log s @ [(length (results s), Inl e)]\<rparr>)"
    and none: "\<And>s. I s \<Longrightarrow> active s \<Longrightarrow> updates s < n \<Longrightarrow> each (since s) (length (pending s)) \<Longrightarrow>
        update (results s) = Inr None \<Longrightarrow>
        I (s\<lparr>active := False, log := log s @ [(length (results s), Inr None)]\<rparr>)"
    and some: "\<And>s d. I s \<Longrightarrow> active s \<Longrightarrow> updates s < n \<Longrightarrow> each (since s) (length (pending s)) \<Longrightarrow>
        update (results s) = Inr (Some d) \<Longrightarrow>
        I (s\<lparr>domains := domains s @ [d], pending := domain_configs d, since := 0,
              updates := Suc (updates s),
              log := log s @ [(length (results s), Inr (Some d))]\<rparr>)"
    and step: "\<And>s c cs. I s \<Longrightarrow> \<not> (active s \<and> updates s < n \<and> each (since s) (length (pending s))) \<Longrightarrow>
        pending s = c # cs \<Longrightarrow>
        I (s\<lparr>pending := cs, since := Suc (since s),
              results := results s @ [execute run (updates s) c]\<rparr>)"
  shows "I (run_research run update each n s)"
  using assms
proof (induction run update each n s rule: run_research.induct)
  case (1 run update each n s)
  note raise = "1.prems"(2) and none = "1.prems"(3) and some = "1.prems"(4)
    and step = "1.prems"(5)
  show ?case
  proof (cases "active s \<and> updates s < n \<and> each (since s) (length (pending s))")
    case True
    show ?thesis
    proof (cases "update (results s)")
      case (Inl e)
      with True "1.prems"(1)
      have "I (s\<lparr>active := False, raised := Some e,
              log := log s @ [(length (results s), Inl e)]\<rparr>)"
        by (simp add: raise)
      with True Inl show ?thesis
        by (subst run_research.simps) simp
    next
      case (Inr x)
      show ?thesis
      proof (cases x)
        case None
        let ?s' = "s\<lparr>active := False, log := log s @ [(length (results s), Inr None)]\<rparr>"
        from None Inr True "1.prems"(1) have "I ?s'"
          by (simp add: none)
        then have "I (run_research run update each n ?s')"
          using True Inr None raise none some step by (intro "1.IH"(1)) simp_all
        with True Inr None show ?thesis
          by (subst run_research.simps) simp
      next
        case (Some d)
        let ?s' = "s\<lparr>domains := domains s @ [d], pending := domain_configs d, since := 0,
              updates := Suc (updates s),
              log := log s @ [(length (results s), Inr (Some d))]\<rparr>"
        from Some Inr True "1.prems"(1) have "I ?s'"
          by (simp add: some)
        then have "I (run_research run update each n ?s')"
          using True Inr Some raise none some step by (intro "1.IH"(2)) simp_all
        with True Inr Some show ?thesis
          by (subst run_research.simps) simp
      qed
    qed
  next
    case False
    show ?thesis
    proof (cases "pending s")
      case Nil
      with False "1.prems"(1) show ?thesis
        by (subst run_research.simps) auto
    next
      case (Cons c cs)
      let ?s' = "s\<lparr>pending := cs, since := Suc (since s),
              results := results s @ [execute run (updates s) c]\<rparr>"
      from Cons False "1.prems"(1) have "I ?s'"
        by (simp add: step)
      then have "I (run_research run update each n ?s')"
        using False Cons raise none some step by (intro "1.IH"(3)) simp_all
      with False Cons show ?thesis
        by (subst run_research.simps) auto
    qed
  qed
qed


lemma returned_domains_append:
  "returned_domains (l @ l') = returned_domains l @ returned_domains l'"
  by (induction l rule: returned_domains.induct) simp_all

lemma returned_domains_snoc:
  "returned_domains (l @ [(m, x)]) =
    returned_domains l @ (case x of Inr (Some d) \<Rightarrow> [d] | _ \<Rightarrow> [])"
  by (cases x rule: returned_domain.cases) (simp_all add: returned_domains_append)



lemma run_research_calls:
  "calls_inv update n d (run_research run update each n (init_domain d))"
proof (rule run_research_invariant [where I = "calls_inv update n d"], goal_cases)
  case 1
  show ?case by (simp add: calls_inv_def init_domain_def)
next
  case (2 s e)
  then show ?case by (simp add: calls_inv_def returned_domains_snoc)
next
  case (3 s)
  then show ?case by (simp add: calls_inv_def returned_domains_snoc)
next
  case (4 s d')
  then show ?case by (simp add: calls_inv_def returned_domains_snoc)
next
  case (5 s c cs)
  then show ?case
    by (auto simp: calls_inv_def list_all_iff)
qed

text \<open>The three runs on the notebook's domain, evaluated.\<close>

lemma notebook_research_eval:
  "notebook_research =
    \<lparr>domains = [notebook_domain,
        option_times (Option ''model'' [Model ''VGG7'']) (Option ''n_epochs'' [Num 2])],
     pending = [], since = 1, updates = 1, active = True, raised = None,
     log = [(3, Inr (Some
        (option_times (Option ''model'' [Model ''VGG7'']) (Option ''n_epochs'' [Num 2]))))],
     results =
       [\<lparr>row_config = [(''model'', Model ''VGG7''), (''n_epochs'', Num 1)],
          row_update = 0, row_value = 5000\<rparr>,
        \<lparr>row_config = [(''model'', Model ''VGG16''), (''n_epochs'', Num 1)],
          row_update = 0, row_value = 4000\<rparr>,
        \<lparr>row_config = [(''model'', Model ''ResNet18''), (''n_epochs'', Num 1)],
          row_update = 0, row_value = 4000\<rparr>,
        best_row]\<rparr>"
  by code_simp



subsection \<open>The updates stop\<close>



subsection \<open>The update counter of a row\<close>

lemma returned_domains_filter_le:
  "length (returned_domains (filter P l)) \<le> length (returned_domains l)"
  by (induction l rule: returned_domains.induct) auto

lemma updates_before_le: "updates_before l p \<le> length (returned_domains l)"
  by (simp add: updates_before_def returned_domains_filter_le)

lemma updates_before_all:
  "list_all (\<lambda>(m, x). m \<le> p) l \<Longrightarrow> updates_before l p = length (returned_domains l)"
proof -
  assume "list_all (\<lambda>(m, x). m \<le> p) l"
  then have "filter (\<lambda>(m, x). m \<le> p) l = l"
    by (simp add: list_all_iff)
  then show ?thesis by (simp add: updates_before_def)
qed

lemma updates_before_snoc:
  "p < m \<Longrightarrow> updates_before (l @ [(m, x)]) p = updates_before l p"
  by (simp add: updates_before_def)


lemma rows_inv_log:
  assumes "rows_inv run s" and "\<not> returned_domain x"
  shows "rows_inv run (s\<lparr>active := a, raised := e, log := log s @ [(length (results s), x)]\<rparr>)"
proof -
  from assms(2) have "returned_domains (log s @ [(length (results s), x)]) = returned_domains (log s)"
    by (cases x rule: returned_domain.cases) (simp_all add: returned_domains_append)
  with assms(1) show ?thesis
    by (simp add: rows_inv_def updates_before_snoc)
qed

lemma run_research_rows:
  "rows_inv run (run_research run update each n (init_domain d))"
proof (rule run_research_invariant [where I = "rows_inv run"], goal_cases)
  case 1
  show ?case by (simp add: rows_inv_def init_domain_def)
next
  case (2 s e)
  from rows_inv_log [OF 2(1), where x = "Inl e" and a = False and e = "Some e"]
  show ?case by simp
next
  case (3 s)
  from rows_inv_log [OF 3(1), where x = "Inr None" and a = False and e = "raised s"]
  show ?case by simp
next
  case (4 s d')
  then show ?case
    by (auto simp: rows_inv_def returned_domains_append updates_before_snoc nth_append
        less_Suc_eq_le)
next
  case (5 s c cs)
  have all: "updates_before (log s) p = updates s" if "length (results s) \<le> p" for p
  proof -
    from 5(1) that have "list_all (\<lambda>(m, x). m \<le> p) (log s)"
      by (auto simp: rows_inv_def list_all_iff)
    with 5(1) show ?thesis by (simp add: rows_inv_def updates_before_all)
  qed
  from 5(1,3) have c: "c \<in> set (domain_configs (domains s ! updates s))"
    and cs: "set cs \<subseteq> set (domain_configs (domains s ! updates s))"
    by (auto simp: rows_inv_def)
  from 5(1) all c cs show ?case
    by (auto simp: rows_inv_def nth_append execute_def list_all_iff)
qed

text \<open>
  Claim C5. Every row of the results table carries an update counter, and it is the
  number of domain updates performed before the row's configuration was got: the number
  of calls of the callback that returned a domain while the table had no more rows
  than stand before this one. The configuration is one of the domain in force after
  that many updates, the initial domain for counter 0 and a domain the callback
  returned otherwise. \<open>load_results\<close> returns rows of the table: all of them, or with
  \<^verbatim>\<open>update=u\<close> exactly those whose counter is \<open>u\<close>.
\<close>

theorem results_carry_update_counter:
  assumes "s = run_research run update each n_updates (init_domain d)"
  shows "(\<forall>p < length (results s).
            row_update (results s ! p) = updates_before (log s) p
          \<and> row_update (results s ! p) \<le> updates s
          \<and> row_config (results s ! p)
              \<in> set (domain_configs ((d # returned_domains (log s)) ! row_update (results s ! p)))
          \<and> row_value (results s ! p) = run (row_config (results s ! p)))
    \<and> domains s = d # returned_domains (log s)
    \<and> updates s = length (returned_domains (log s))
    \<and> list_all (\<lambda>(m, x). m \<le> length (results s) \<and> x = update (take m (results s))) (log s)
    \<and> load_results (results s) None = results s
    \<and> (\<forall>u. load_results (results s) (Some u) = filter (\<lambda>r. row_update r = u) (results s))
    \<and> (\<forall>sel. \<forall>r \<in> set (load_results (results s) sel).
          \<exists>p < length (results s). r = results s ! p \<and> (sel = None \<or> sel = Some (row_update r)))"
proof -
  have rows: "rows_inv run s"
    unfolding assms by (rule run_research_rows)
  have calls: "calls_inv update n_updates d s"
    unfolding assms by (rule run_research_calls)
  from calls have doms: "domains s = d # returned_domains (log s)"
    by (simp add: calls_inv_def)
  have a: "\<forall>p < length (results s).
            row_update (results s ! p) = updates_before (log s) p
          \<and> row_update (results s ! p) \<le> updates s
          \<and> row_config (results s ! p)
              \<in> set (domain_configs ((d # returned_domains (log s)) ! row_update (results s ! p)))
          \<and> row_value (results s ! p) = run (row_config (results s ! p))"
    using rows unfolding rows_inv_def doms by simp
  have b: "\<forall>sel. \<forall>r \<in> set (load_results (results s) sel).
          \<exists>p < length (results s). r = results s ! p \<and> (sel = None \<or> sel = Some (row_update r))"
  proof (intro allI ballI)
    fix sel r
    assume r: "r \<in> set (load_results (results s) sel)"
    then have "r \<in> set (results s)" and sel: "sel = None \<or> sel = Some (row_update r)"
      by (auto simp: load_results_def split: option.splits)
    then obtain p where "p < length (results s)" "results s ! p = r"
      by (auto simp: in_set_conv_nth)
    with sel show "\<exists>p < length (results s). r = results s ! p
        \<and> (sel = None \<or> sel = Some (row_update r))"
      by auto
  qed
  from calls have c: "updates s = length (returned_domains (log s))"
    and g: "list_all (\<lambda>(m, x). m \<le> length (results s) \<and> x = update (take m (results s))) (log s)"
    by (simp_all add: calls_inv_def)
  have l: "load_results (results s) None = results s"
    and f: "\<forall>u. load_results (results s) (Some u) = filter (\<lambda>r. row_update r = u) (results s)"
    by (simp_all add: load_results_def)
  from a doms c g l f b show ?thesis by blast
qed

theorem results_carry_update_counter_witness:
  "(3::nat) < length (results notebook_research)
   \<and> results notebook_research ! 3 = best_row
   \<and> row_update best_row = 1
   \<and> updates_before (log notebook_research) 3 = 1
   \<and> updates_before (log notebook_research) 2 = 0
   \<and> load_results (results notebook_research) (Some 1) = [best_row]"
proof -
  have p: "(3::nat) < length (results notebook_research)"
    and r: "results notebook_research ! 3 = best_row"
    and l: "load_results (results notebook_research) (Some 1) = [best_row]"
    and u: "updates_before (log notebook_research) 2 = 0"
    unfolding notebook_research_eval
    by (simp_all add: load_results_def best_row_def updates_before_def)
  from results_carry_update_counter [OF notebook_research_def] p
  have "row_update (results notebook_research ! 3) = updates_before (log notebook_research) 3"
    by blast
  with p r l u show ?thesis by (simp add: best_row_def)
qed

subsection \<open>The product of two options\<close>












end
